theory Spec2Isabelle
  imports Complex_Main "HOL-Library.AList" "HOL-Library.Char_ord" "HOL-Library.List_Lexorder" "HOL-Library.Product_Lexorder"
begin

section \<open>Strings\<close>

text \<open>
  Python strings are modelled as \<^typ>\<open>string\<close>, a list of 8-bit characters (the UTF-8
  bytes of the text). The order on strings is the lexicographic order on the character
  codes, which is the order Python's \<^verbatim>\<open><\<close> has on \<^verbatim>\<open>str\<close>. Case mapping, white
  space and digits are the ASCII ones: \<^verbatim>\<open>str.lower\<close>, \<^verbatim>\<open>str.strip\<close> and
  \<^verbatim>\<open>str.isdigit\<close> on characters outside ASCII are outside this model.
\<close>

definition lower_char :: "char \<Rightarrow> char" where
  "lower_char c =
     (let n = (of_char c :: nat) in if 65 \<le> n \<and> n \<le> 90 then char_of (n + 32) else c)"

definition lower :: "string \<Rightarrow> string" where
  "lower s = map lower_char s"

definition is_space :: "char \<Rightarrow> bool" where
  "is_space c =
     (let n = (of_char c :: nat) in n = 32 \<or> (9 \<le> n \<and> n \<le> 13) \<or> (28 \<le> n \<and> n \<le> 31))"

definition strip :: "string \<Rightarrow> string" where
  "strip s = rev (dropWhile is_space (rev (dropWhile is_space s)))"

definition is_digit :: "char \<Rightarrow> bool" where
  "is_digit c = (let n = (of_char c :: nat) in 48 \<le> n \<and> n \<le> 57)"

definition isdigit :: "string \<Rightarrow> bool" where
  "isdigit s \<longleftrightarrow> s \<noteq> [] \<and> list_all is_digit s"

text \<open>\<^verbatim>\<open>int(sel)\<close> on a string of decimal digits.\<close>

definition int_of_digits :: "string \<Rightarrow> nat" where
  "int_of_digits s = foldl (\<lambda>a c. 10 * a + (of_char c - 48)) 0 s"

text \<open>\<^verbatim>\<open>q in s\<close> on strings: \<open>q\<close> occurs in \<open>s\<close> as a contiguous block.\<close>

fun starts_with :: "string \<Rightarrow> string \<Rightarrow> bool" where
  "starts_with [] s = True"
| "starts_with (a # q) [] = False"
| "starts_with (a # q) (c # s) = (a = c \<and> starts_with q s)"

fun py_in :: "string \<Rightarrow> string \<Rightarrow> bool" where
  "py_in q [] = (q = [])"
| "py_in q (c # s) = (starts_with q (c # s) \<or> py_in q s)"

text \<open>The decimal digits of a natural number, as \<^verbatim>\<open>str\<close> prints an integer.\<close>

function str_nat :: "nat \<Rightarrow> string" where
  "str_nat n =
     (if n < 10 then [char_of (48 + n)] else str_nat (n div 10) @ [char_of (48 + n mod 10)])"
  by pat_completeness auto
termination
  by (relation "measure id") auto

declare str_nat.simps [simp del]

text \<open>
  \<^verbatim>\<open>os.path.join(a, b)\<close> on POSIX for two components: an absolute \<open>b\<close> replaces
  \<open>a\<close>; otherwise a separator is put between them unless \<open>a\<close> is empty or ends in one.
\<close>

definition path_join :: "string \<Rightarrow> string \<Rightarrow> string" where
  "path_join a b =
     (if starts_with ''/'' b then b
      else if a = [] \<or> last a = CHR ''/'' then a @ b
      else a @ ''/'' @ b)"

section \<open>Numbers\<close>

text \<open>
  Weights and prices are Python floats. The model leaves their type open: the sums need
  a zero and an addition only, and no law of arithmetic is assumed of them. Truncation
  and rounding to an integer are those of an ordered field with a floor function (the
  exact value of a finite float is a rational number); NaN and the infinities are outside
  the model.
\<close>

text \<open>
  \<^verbatim>\<open>sum(xs)\<close>: the additions from the left, starting at 0. (Recent versions of CPython
  add floats with a compensated sum; the properties proved of the totals only need the
  sum to be a function of the list of values.)
\<close>

definition py_sum :: "'n list \<Rightarrow> 'n::{zero,plus}" where
  "py_sum xs = foldl (+) 0 xs"

text \<open>\<^verbatim>\<open>int(x)\<close> on a float: truncation towards zero.\<close>

definition py_int :: "'n::floor_ceiling \<Rightarrow> int" where
  "py_int x = (if 0 \<le> x then \<lfloor>x\<rfloor> else \<lceil>x\<rceil>)"

text \<open>The integer \<^verbatim>\<open>f"{x:.0f}"\<close> prints: the nearest one, a tie going to the even one.\<close>

definition round_half_even :: "'n::floor_ceiling \<Rightarrow> int" where
  "round_half_even x =
     (let f = \<lfloor>x\<rfloor>; r = x - of_int f in
      if r < 1 / 2 then f else if 1 / 2 < r then f + 1 else if even f then f else f + 1)"

definition fmt0 :: "'n::floor_ceiling \<Rightarrow> string" where
  "fmt0 x = (if x < 0 then ''-'' else []) @ str_nat (nat \<bar>round_half_even x\<bar>)"

datatype error = ValueError | KeyError | EOFError

section \<open>Data model\<close>

text \<open>
  A part is a row of \<^verbatim>\<open>parts.csv\<close>, a Python dict in the source. The type of the two
  numeric fields is a parameter: \<^verbatim>\<open>csv.DictReader\<close> delivers them as text (\<open>None\<close>
  when the file has no such column, or the row ends before it), \<^verbatim>\<open>load_parts\<close>
  replaces them by numbers. The category, the brand and the model are text in every row.
  \<open>variant\<close> is \<open>None\<close> when the file has no such column; \<open>other\<close> holds the remaining
  columns (notes, source, link), which no function reads.
\<close>

record 'n part =
  category :: string
  brand :: string
  model :: string
  variant :: "string option"
  weight_g :: 'n
  price_sgd :: 'n
  other :: "(string \<times> string) list"

section \<open>Resolver\<close>

text \<open>
  The search loop of \<^verbatim>\<open>apply_scenario_mapping\<close> (lines 171 to 175):
  \<^verbatim>\<open>
  chosen = None
  for o in options:
      if o["model"].lower() == want.lower() or (o["brand"]+" "+o["model"]).lower() == want.lower():
          chosen = o
          break
  \<close>
\<close>

fun resolve :: "string \<Rightarrow> ('n, 'z) part_scheme list \<Rightarrow> ('n, 'z) part_scheme option" where
  "resolve want [] = None"
| "resolve want (opt # options) =
     (if lower (model opt) = lower want \<or> lower (brand opt @ '' '' @ model opt) = lower want
      then Some opt
      else resolve want options)"

section \<open>Catalog\<close>

text \<open>
  \<^verbatim>\<open>float(row.get("weight_g",0) or 0)\<close>: an absent or empty field is 0, any other text goes
  to Python's \<^verbatim>\<open>float\<close>, which raises \<^verbatim>\<open>ValueError\<close> on text that is no number. The
  builtin is the parameter \<open>to_float\<close>, with \<open>None\<close> for the exception.
\<close>

definition float_or_zero :: "(string \<Rightarrow> 'n option) \<Rightarrow> string option \<Rightarrow> error + 'n::zero" where
  "float_or_zero to_float field =
     (case field of
        None \<Rightarrow> Inr 0
      | Some s \<Rightarrow>
          if s = [] then Inr 0
          else (case to_float s of None \<Rightarrow> Inl ValueError | Some x \<Rightarrow> Inr x))"

definition load_row ::
  "(string \<Rightarrow> 'n option) \<Rightarrow> string option part \<Rightarrow> error + ('n::zero) part" where
  "load_row to_float row =
     (case float_or_zero to_float (weight_g row) of
        Inl e \<Rightarrow> Inl e
      | Inr w \<Rightarrow>
          (case float_or_zero to_float (price_sgd row) of
             Inl e \<Rightarrow> Inl e
           | Inr p \<Rightarrow>
               Inr \<lparr>category = category row, brand = brand row, model = model row,
                 variant = variant row, weight_g = w, price_sgd = p, other = other row\<rparr>))"

fun load_parts ::
  "(string \<Rightarrow> 'n option) \<Rightarrow> string option part list \<Rightarrow> error + ('n::zero) part list" where
  "load_parts to_float [] = Inr []"
| "load_parts to_float (row # rows) =
     (case load_row to_float row of
        Inl e \<Rightarrow> Inl e
      | Inr p \<Rightarrow>
          (case load_parts to_float rows of Inl e \<Rightarrow> Inl e | Inr parts \<Rightarrow> Inr (p # parts)))"

text \<open>
  The number conversion of \<^verbatim>\<open>add_part_interactive\<close> (lines 195 to 199):
  \<^verbatim>\<open>try: val = float(val)\<close>, \<^verbatim>\<open>except: val = 0.0\<close>.
\<close>

definition add_part_number :: "(string \<Rightarrow> 'n option) \<Rightarrow> string \<Rightarrow> 'n::zero" where
  "add_part_number to_float val = (case to_float val of None \<Rightarrow> 0 | Some x \<Rightarrow> x)"

text \<open>
  A Python dict is an association list in insertion order, its keys distinct.
  \<^verbatim>\<open>cats.setdefault(k, []).append(p)\<close> appends to the list of an existing key and puts a
  new key last.
\<close>

fun setdefault_append :: "'k \<Rightarrow> 'v \<Rightarrow> ('k \<times> 'v list) list \<Rightarrow> ('k \<times> 'v list) list" where
  "setdefault_append k v [] = [(k, [v])]"
| "setdefault_append k v ((k', vs) # d) =
     (if k' = k then (k', vs @ [v]) # d else (k', vs) # setdefault_append k v d)"

text \<open>The sort key of line 44, \<^verbatim>\<open>(x["brand"], x["model"])\<close>.\<close>

definition sort_key_of :: "('n, 'z) part_scheme \<Rightarrow> string \<times> string" where
  "sort_key_of x = (brand x, model x)"

text \<open>
  \<^verbatim>\<open>list.sort(key=...)\<close> is a stable sort; \<^const>\<open>sort_key\<close> is the stable insertion sort.
\<close>

definition group_by_category ::
  "('n, 'z) part_scheme list \<Rightarrow> (string \<times> ('n, 'z) part_scheme list) list" where
  "group_by_category parts =
     map (\<lambda>(k, ps). (k, sort_key sort_key_of ps))
       (foldl (\<lambda>cats p. setdefault_append (category p) p cats) [] parts)"

section \<open>Mapping-driven selection\<close>

text \<open>
  \<^verbatim>\<open>apply_scenario_mapping\<close>: \<open>keys\<close> is \<^verbatim>\<open>sorted(cats.keys())\<close>, \<open>chosen\<close> the picks so
  far. \<^verbatim>\<open>if not want\<close> holds for an absent entry and for the empty string.
  \<^verbatim>\<open>cats[cat]\<close> raises \<^verbatim>\<open>KeyError\<close> on a missing key.
\<close>

fun mapping_loop ::
  "(string \<rightharpoonup> string) \<Rightarrow> (string \<times> ('n, 'z) part_scheme list) list \<Rightarrow> string list
   \<Rightarrow> (string \<times> ('n, 'z) part_scheme option) list
   \<Rightarrow> error + (string \<times> ('n, 'z) part_scheme option) list" where
  "mapping_loop mapping cats [] chosen = Inr chosen"
| "mapping_loop mapping cats (cat # keys) chosen =
     (case mapping cat of
        None \<Rightarrow> mapping_loop mapping cats keys (AList.update cat None chosen)
      | Some want \<Rightarrow>
          if want = [] then mapping_loop mapping cats keys (AList.update cat None chosen)
          else
            (case map_of cats cat of
               None \<Rightarrow> Inl KeyError
             | Some options \<Rightarrow>
                 mapping_loop mapping cats keys (AList.update cat (resolve want options) chosen)))"

definition apply_scenario_mapping ::
  "(string \<rightharpoonup> string) \<Rightarrow> (string \<times> ('n, 'z) part_scheme list) list
   \<Rightarrow> error + (string \<times> ('n, 'z) part_scheme option) list" where
  "apply_scenario_mapping mapping cats = mapping_loop mapping cats (sort (map fst cats)) []"

section \<open>Aggregator\<close>

text \<open>The parts of \<^verbatim>\<open>picks.values()\<close> that are not \<^verbatim>\<open>None\<close>, in the dict's order.\<close>

definition chosen_parts :: "('k \<times> 'a option) list \<Rightarrow> 'a list" where
  "chosen_parts picks = List.map_filter snd picks"

definition summarize ::
  "(string \<times> ('n::{zero,plus}, 'z) part_scheme option) list \<Rightarrow> 'n \<times> 'n" where
  "summarize picks =
     (py_sum (map weight_g (chosen_parts picks)), py_sum (map price_sgd (chosen_parts picks)))"

section \<open>Scenario store\<close>

record 'n scenario =
  scen_name :: string
  created :: string
  scen_picks :: "(string \<times> 'n part) list"
  total_weight_g :: 'n
  total_price_sgd :: 'n

datatype 'n cell = TextCell string | IntCell int | NumCell 'n

text \<open>
  The files of the scenario and report directories: a JSON document holds a scenario, the
  Markdown report is its list of lines (joined by newlines when written), the CSV report
  its rows of cells as they are passed to \<^verbatim>\<open>csv.writer\<close>.
\<close>

datatype 'n document = Json "'n scenario" | Markdown "string list" | Csv "'n cell list list"

text \<open>\<^verbatim>\<open>v.get("variant", "")\<close> and \<^verbatim>\<open>o.get("variant") or ""\<close>.\<close>

definition variant_text :: "('n, 'z) part_scheme \<Rightarrow> string" where
  "variant_text v = (case variant v of None \<Rightarrow> [] | Some s \<Rightarrow> s)"

definition md_row :: "string \<times> ('n::floor_ceiling) part \<Rightarrow> string" where
  "md_row cv =
     (case cv of (cat, v) \<Rightarrow>
        ''| '' @ cat @ '' | '' @ brand v @ '' | '' @ model v @ '' | '' @ variant_text v
        @ '' | '' @ fmt0 (weight_g v) @ '' | '' @ fmt0 (price_sgd v) @ '' |'')"

definition csv_header :: "'n cell list" where
  "csv_header =
     [TextCell ''category'', TextCell ''brand'', TextCell ''model'', TextCell ''variant'',
      TextCell ''weight_g'', TextCell ''price_sgd'']"

definition csv_row :: "string \<times> ('n::floor_ceiling) part \<Rightarrow> 'n cell list" where
  "csv_row cv =
     (case cv of (cat, v) \<Rightarrow>
        [TextCell cat, TextCell (brand v), TextCell (model v), TextCell (variant_text v),
         IntCell (py_int (weight_g v)), NumCell (price_sgd v)])"

text \<open>
  \<^verbatim>\<open>save_scenario\<close>. \<open>scen_dir\<close> and \<open>report_dir\<close> are the module's \<^verbatim>\<open>SCEN_DIR\<close> and
  \<^verbatim>\<open>REPORT_DIR\<close>, \<open>now\<close> the text of \<^verbatim>\<open>datetime.now().isoformat()\<close>. Opening a file with
  mode \<^verbatim>\<open>"w"\<close> replaces what the path held. The function returns the path of the JSON
  document and the files after the three writes.
\<close>

definition save_data ::
  "string \<Rightarrow> string \<Rightarrow> (string \<times> 'n part option) list \<Rightarrow> 'n \<times> 'n \<Rightarrow> 'n scenario" where
  "save_data now name picks totals =
     \<lparr>scen_name = name, created = now,
      scen_picks = List.map_filter (\<lambda>(k, v). case v of None \<Rightarrow> None | Some p \<Rightarrow> Some (k, p)) picks,
      total_weight_g = fst totals, total_price_sgd = snd totals\<rparr>"

definition md_report :: "('n::floor_ceiling) scenario \<Rightarrow> string list" where
  "md_report data =
     [''# Scenario: '' @ scen_name data, [],
      ''| Category | Brand | Model | Variant | Weight (g) | Price (SGD) |'',
      ''|---|---|---|---|---:|---:|'']
     @ map md_row (scen_picks data)
     @ [[CHR 0x0A] @ ''**Totals:** '' @ fmt0 (total_weight_g data) @ '' g,  $''
        @ fmt0 (total_price_sgd data) @ '' SGD'' @ [CHR 0x0A]]"

definition csv_report :: "('n::floor_ceiling) scenario \<Rightarrow> 'n cell list list" where
  "csv_report data = csv_header # map csv_row (scen_picks data)"

definition save_scenario ::
  "string \<Rightarrow> string \<Rightarrow> string \<Rightarrow> string \<Rightarrow> (string \<times> ('n::floor_ceiling) part option) list
   \<Rightarrow> 'n \<times> 'n \<Rightarrow> (string \<rightharpoonup> 'n document) \<Rightarrow> string \<times> (string \<rightharpoonup> 'n document)" where
  "save_scenario scen_dir report_dir now name picks totals files =
     (let data = save_data now name picks totals;
          path = path_join scen_dir (name @ ''.json'');
          files1 = files(path \<mapsto> Json data);
          files2 = files1(path_join report_dir (name @ ''.md'') \<mapsto> Markdown (md_report data));
          files3 = files2(path_join report_dir (name @ ''.csv'') \<mapsto> Csv (csv_report data))
      in (path, files3))"

text \<open>Reading a scenario back, the \<^verbatim>\<open>json.load\<close> of \<^verbatim>\<open>load_last_scenario\<close>.\<close>

definition load_scenario :: "string \<Rightarrow> (string \<rightharpoonup> 'n document) \<Rightarrow> 'n scenario option" where
  "load_scenario path files = (case files path of Some (Json data) \<Rightarrow> Some data | _ \<Rightarrow> None)"

text \<open>
  \<^verbatim>\<open>Aggregator.totals\<close> over the picks of a stored scenario, whose every entry is a part.
\<close>

definition scenario_totals :: "('n::{zero,plus}) scenario \<Rightarrow> 'n \<times> 'n" where
  "scenario_totals data = summarize (map (\<lambda>(k, p). (k, Some p)) (scen_picks data))"

section \<open>Interactive selection\<close>

text \<open>
  The terminal is a list of the lines still to be typed: every \<^verbatim>\<open>input()\<close> takes the
  first one, and raises \<^verbatim>\<open>EOFError\<close> when none is left. What is printed is not modelled.
\<close>

datatype 'a choice = NoChoice | SEARCH | Chosen 'a

text \<open>The test \<^verbatim>\<open>sel.isdigit()\<close> with \<^verbatim>\<open>1 <= int(sel) <= len(options)\<close>.\<close>

definition valid_index :: "string \<Rightarrow> 'a list \<Rightarrow> bool" where
  "valid_index sel options \<longleftrightarrow>
     isdigit sel \<and> 1 \<le> int_of_digits sel \<and> int_of_digits sel \<le> length options"

fun choose_from_list :: "'a list \<Rightarrow> string list \<Rightarrow> error + ('a choice \<times> string list)" where
  "choose_from_list options [] = Inl EOFError"
| "choose_from_list options (line # inp) =
     (let sel = strip line in
      if sel = [] then Inr (NoChoice, inp)
      else if lower sel = ''s'' then Inr (SEARCH, inp)
      else if valid_index sel options then Inr (Chosen (options ! (int_of_digits sel - 1)), inp)
      else choose_from_list options inp)"

text \<open>
  The text a search looks into, line 72:
  \<^verbatim>\<open>(o["brand"]+" "+o["model"]+" "+(o.get("variant") or "")).lower()\<close>.
\<close>

definition search_text :: "('n, 'z) part_scheme \<Rightarrow> string" where
  "search_text opt = lower (brand opt @ '' '' @ model opt @ '' '' @ variant_text opt)"

text \<open>
  The filter of \<^verbatim>\<open>search_and_choose\<close> (line 72) for a query \<open>query\<close>, the typed line
  after \<^verbatim>\<open>strip()\<close>; the query is lower-cased, as line 71 does.
\<close>

definition search :: "string \<Rightarrow> ('n, 'z) part_scheme list \<Rightarrow> ('n, 'z) part_scheme list" where
  "search query options = filter (\<lambda>opt. py_in (lower query) (search_text opt)) options"

text \<open>The second loop of \<^verbatim>\<open>search_and_choose\<close> (lines 78 to 86).\<close>

fun pick_from_results :: "'a list \<Rightarrow> string list \<Rightarrow> error + ('a option \<times> string list)" where
  "pick_from_results filtered [] = Inl EOFError"
| "pick_from_results filtered (line # inp) =
     (let sel = strip line in
      if sel = [] then Inr (None, inp)
      else if valid_index sel filtered then Inr (Some (filtered ! (int_of_digits sel - 1)), inp)
      else pick_from_results filtered inp)"

definition search_and_choose ::
  "('n, 'z) part_scheme list \<Rightarrow> string list
   \<Rightarrow> error + (('n, 'z) part_scheme option \<times> string list)" where
  "search_and_choose options inp =
     (case inp of
        [] \<Rightarrow> Inl EOFError
      | line # inp1 \<Rightarrow>
          (let filtered = search (strip line) options in
           if filtered = [] then Inr (None, inp1) else pick_from_results filtered inp1))"

lemma choose_from_list_shorter:
  "choose_from_list options inp = Inr (c, rest) \<Longrightarrow> length rest < length inp"
  by (induction inp) (auto simp: Let_def split: if_splits)

lemma pick_from_results_shorter:
  "pick_from_results filtered inp = Inr (c, rest) \<Longrightarrow> length rest < length inp"
  by (induction inp) (auto simp: Let_def split: if_splits)

lemma search_and_choose_shorter:
  "search_and_choose options inp = Inr (c, rest) \<Longrightarrow> length rest < length inp"
  by (cases inp)
    (auto simp: search_and_choose_def Let_def split: if_splits
      dest: pick_from_results_shorter)

text \<open>
  \<^verbatim>\<open>pick_for_category\<close>; its first parameter, the category's name, is printed only. The
  default \<open>preselect\<close> is a part or \<^verbatim>\<open>None\<close>.
\<close>

function pick_for_category ::
  "('n, 'z) part_scheme list \<Rightarrow> ('n, 'z) part_scheme option \<Rightarrow> string list
   \<Rightarrow> error + (('n, 'z) part_scheme option \<times> string list)" where
  "pick_for_category options preselect inp =
     (case choose_from_list options inp of
        Inl e \<Rightarrow> Inl e
      | Inr (SEARCH, inp1) \<Rightarrow>
          (case search_and_choose options inp1 of
             Inl e \<Rightarrow> Inl e
           | Inr (None, inp2) \<Rightarrow> pick_for_category options preselect inp2
           | Inr (Some p, inp2) \<Rightarrow> Inr (Some p, inp2))
      | Inr (NoChoice, inp1) \<Rightarrow>
          (case preselect of Some d \<Rightarrow> Inr (Some d, inp1) | None \<Rightarrow> Inr (None, inp1))
      | Inr (Chosen p, inp1) \<Rightarrow> Inr (Some p, inp1))"
  by pat_completeness auto
termination
proof (relation "measure (\<lambda>(options, preselect, inp). length inp)")
  show "wf (measure (\<lambda>(options, preselect, inp). length inp))" by simp
next
  fix options :: "('n, 'z) part_scheme list" and preselect :: "('n, 'z) part_scheme option"
    and inp x2 x1a inp1 x2a x1b inp2
  assume "choose_from_list options inp = Inr x2" "(x1a, inp1) = x2"
    "search_and_choose options inp1 = Inr x2a" "(x1b, inp2) = x2a"
  then have "length inp1 < length inp" "length inp2 < length inp1"
    using choose_from_list_shorter [of options inp x1a inp1]
      search_and_choose_shorter [of options inp1 x1b inp2]
    by simp_all
  then show "((options, preselect, inp2), (options, preselect, inp)) \<in>
    measure (\<lambda>(options, preselect, inp). length inp)"
    by simp
qed

declare pick_for_category.simps [simp del]

text \<open>
  The preselection of \<^verbatim>\<open>main\<close> (lines 259 to 269): \<open>preselect\<close> is the picks of the last
  saved scenario. \<^verbatim>\<open>if preselect\<close> fails on an empty dict.
\<close>

definition preselect_objs ::
  "(string \<times> 'n part) list \<Rightarrow> (string \<times> 'n part list) list \<Rightarrow> (string \<times> 'n part option) list" where
  "preselect_objs preselect cats =
     (if preselect = [] then []
      else
        map (\<lambda>(cat, list_opts).
            (cat,
             case map_of preselect cat of
               None \<Rightarrow> None
             | Some prefer \<Rightarrow>
                 List.find (\<lambda>opt. brand opt = brand prefer \<and> model opt = model prefer) list_opts))
          cats)"

text \<open>\<^verbatim>\<open>d.get(k)\<close> on a dict whose values may be \<^verbatim>\<open>None\<close>.\<close>

definition dict_get :: "('k \<times> 'v option) list \<Rightarrow> 'k \<Rightarrow> 'v option" where
  "dict_get d k = (case map_of d k of None \<Rightarrow> None | Some v \<Rightarrow> v)"

text \<open>
  The loop of \<^verbatim>\<open>main\<close> over \<^verbatim>\<open>sorted(cats.keys())\<close> (lines 272 to 275); the totals
  printed after each category are not kept.
\<close>

fun session_loop ::
  "(string \<times> 'n part list) list \<Rightarrow> (string \<times> 'n part option) list \<Rightarrow> string list
   \<Rightarrow> (string \<times> 'n part option) list \<Rightarrow> string list
   \<Rightarrow> error + ((string \<times> 'n part option) list \<times> string list)" where
  "session_loop cats pre [] picks inp = Inr (picks, inp)"
| "session_loop cats pre (cat # keys) picks inp =
     (case map_of cats cat of
        None \<Rightarrow> Inl KeyError
      | Some options \<Rightarrow>
          (case pick_for_category options (dict_get pre cat) inp of
             Inl e \<Rightarrow> Inl e
           | Inr (choice, inp1) \<Rightarrow>
               session_loop cats pre keys (AList.update cat choice picks) inp1))"

text \<open>Lines 271 to 275: the picks start with every category at \<^verbatim>\<open>None\<close>.\<close>

definition interactive_session ::
  "(string \<times> 'n part list) list \<Rightarrow> (string \<times> 'n part option) list \<Rightarrow> string list
   \<Rightarrow> error + ((string \<times> 'n part option) list \<times> string list)" where
  "interactive_session cats pre inp =
     session_loop cats pre (sort (map fst cats))
       (map (\<lambda>k. (k, None)) (sort (map fst cats))) inp"

section \<open>The program\<close>

text \<open>
  The command line, as \<^verbatim>\<open>main\<close> reads it: the flags, the value of \<^verbatim>\<open>--name=\<close>, and
  for \<^verbatim>\<open>--scenario=\<close> the name taken from the file's path with the mapping read from
  the file (\<open>None\<close> when the option is absent or empty).
\<close>

record invocation =
  add_part :: bool
  scenario_arg :: "(string \<times> (string \<rightharpoonup> string)) option"
  save_flag :: bool
  clone_last :: bool
  name_arg :: "string option"
  auto_save :: bool

datatype 'n outcome =
    PartAdded
  | NoPartsFound
  | Replayed "(string \<times> 'n part option) list" "'n \<times> 'n"
  | Completed "(string \<times> 'n part option) list" "'n \<times> 'n"

text \<open>
  Line 256: \<^verbatim>\<open>values.get("--name") or input(...).strip() or "Scenario"\<close>.
\<close>

definition read_name :: "string option \<Rightarrow> string list \<Rightarrow> error + (string \<times> string list)" where
  "read_name given inp =
     (let name = (case given of None \<Rightarrow> [] | Some n \<Rightarrow> n) in
      if name \<noteq> [] then Inr (name, inp)
      else
        (case inp of
           [] \<Rightarrow> Inl EOFError
         | line # inp1 \<Rightarrow> Inr (if strip line = [] then ''Scenario'' else strip line, inp1)))"

text \<open>
  Lines 278 to 280: the scenario is saved with \<^verbatim>\<open>--auto-save\<close>, or when the answer to
  the last prompt is \<^verbatim>\<open>y\<close>.
\<close>

definition confirm_save :: "bool \<Rightarrow> string list \<Rightarrow> error + bool" where
  "confirm_save auto inp =
     (if auto then Inr True
      else (case inp of [] \<Rightarrow> Inl EOFError | line # inp1 \<Rightarrow> Inr (lower (strip line) = ''y'')))"

text \<open>
  \<^verbatim>\<open>main\<close>. \<open>rows\<close> are the rows of \<^verbatim>\<open>parts.csv\<close>, \<open>last_scen\<close> is what
  \<^verbatim>\<open>load_last_scenario()\<close> returns, \<open>inp\<close> the lines typed, \<open>files\<close> the files of the two
  directories. \<^verbatim>\<open>add_part_interactive\<close> is not modelled: its branch only ends the run.
\<close>

definition main ::
  "(string \<Rightarrow> 'n option) \<Rightarrow> string \<Rightarrow> string \<Rightarrow> string \<Rightarrow> invocation \<Rightarrow> string option part list
   \<Rightarrow> 'n scenario option \<Rightarrow> string list \<Rightarrow> (string \<rightharpoonup> 'n document)
   \<Rightarrow> error + (('n::floor_ceiling) outcome \<times> (string \<rightharpoonup> 'n document))" where
  "main to_float scen_dir report_dir now args rows last_scen inp files =
     (if add_part args then Inr (PartAdded, files)
      else
        (case load_parts to_float rows of
           Inl e \<Rightarrow> Inl e
         | Inr parts \<Rightarrow>
             if parts = [] then Inr (NoPartsFound, files)
             else
               (let cats = group_by_category parts in
                case scenario_arg args of
                  Some (name, mapping) \<Rightarrow>
                    (case apply_scenario_mapping mapping cats of
                       Inl e \<Rightarrow> Inl e
                     | Inr picks \<Rightarrow>
                         (let totals = summarize picks in
                          Inr (Replayed picks totals,
                            if save_flag args
                            then snd (save_scenario scen_dir report_dir now name picks totals files)
                            else files)))
                | None \<Rightarrow>
                    (let preselect =
                       (if clone_last args
                        then (case last_scen of None \<Rightarrow> [] | Some l \<Rightarrow> scen_picks l)
                        else [])
                     in
                     case read_name (name_arg args) inp of
                       Inl e \<Rightarrow> Inl e
                     | Inr (scenario_name, inp1) \<Rightarrow>
                         (case interactive_session cats (preselect_objs preselect cats) inp1 of
                            Inl e \<Rightarrow> Inl e
                          | Inr (picks, inp2) \<Rightarrow>
                              (let tot = summarize picks in
                               case confirm_save (auto_save args) inp2 of
                                 Inl e \<Rightarrow> Inl e
                               | Inr yes \<Rightarrow>
                                   Inr (Completed picks tot,
                                     if yes
                                     then snd (save_scenario scen_dir report_dir now scenario_name
                                            picks tot files)
                                     else files)))))))"

text \<open>
  The resolver's contract in the specification's words: after lower-casing both sides, the
  query equals the model, or the brand, one space and the model.
\<close>

definition spec_match :: "string \<Rightarrow> ('n, 'z) part_scheme \<Rightarrow> bool" where
  "spec_match q p \<longleftrightarrow>
     lower q = lower (model p) \<or> lower q = lower (brand p @ '' '' @ model p)"

text \<open>The pick \<^verbatim>\<open>apply_scenario_mapping\<close> makes for one category.\<close>

definition mapping_pick ::
  "(string \<rightharpoonup> string) \<Rightarrow> (string \<times> ('n, 'z) part_scheme list) list \<Rightarrow> string
   \<Rightarrow> ('n, 'z) part_scheme option" where
  "mapping_pick mapping cats cat =
     (case mapping cat of
        None \<Rightarrow> None
      | Some want \<Rightarrow>
          if want = [] then None
          else (case map_of cats cat of None \<Rightarrow> None | Some options \<Rightarrow> resolve want options))"

text \<open>The first loop of \<^verbatim>\<open>group_by_category\<close>, from any dict \<open>acc\<close>.\<close>

definition grouped ::
  "('n, 'z) part_scheme list \<Rightarrow> (string \<times> ('n, 'z) part_scheme list) list
   \<Rightarrow> (string \<times> ('n, 'z) part_scheme list) list" where
  "grouped parts acc = foldl (\<lambda>cats p. setdefault_append (category p) p cats) acc parts"

text \<open>
  The row of the flat report as the specification describes it: the pick's own category,
  brand, model, variant, weight and price.
\<close>

definition spec_csv_row :: "string \<times> 'n part \<Rightarrow> 'n cell list" where
  "spec_csv_row cv =
     (case cv of (cat, v) \<Rightarrow>
        [TextCell (category v), TextCell (brand v), TextCell (model v), TextCell (variant_text v),
         NumCell (weight_g v), NumCell (price_sgd v)])"

text \<open>The specification's "contains as a substring".\<close>

definition contains :: "string \<Rightarrow> string \<Rightarrow> bool" where
  "contains q s \<longleftrightarrow> (\<exists>a b. s = a @ q @ b)"

section \<open>Example catalog\<close>

definition sid_a :: "rat part" where
  "sid_a = \<lparr>category = ''Fork'', brand = ''RockShox'', model = ''SID'',
     variant = Some ''100mm'', weight_g = 1700, price_sgd = 900, other = []\<rparr>"

definition sid_b :: "rat part" where
  "sid_b = \<lparr>category = ''Fork'', brand = ''RockShox'', model = ''SID'',
     variant = Some ''120mm'', weight_g = 1750, price_sgd = 950, other = []\<rparr>"

definition fox34 :: "rat part" where
  "fox34 = \<lparr>category = ''Fork'', brand = ''Fox'', model = ''34'',
     variant = None, weight_g = 17006 / 10, price_sgd = 1799 / 2, other = []\<rparr>"

definition fox36 :: "rat part" where
  "fox36 = \<lparr>category = ''Fork'', brand = ''fox'', model = ''36'',
     variant = Some [], weight_g = 1950, price_sgd = 1200, other = []\<rparr>"

definition xm481 :: "rat part" where
  "xm481 = \<lparr>category = ''Wheelset'', brand = ''DT'', model = ''XM481'',
     variant = Some ''29 inch'', weight_g = 1850, price_sgd = 400, other = []\<rparr>"

definition demo_cats :: "(string \<times> rat part list) list" where
  "demo_cats = [(''Wheelset'', [xm481]), (''Fork'', [fox34, sid_b, sid_a, fox36])]"

definition unnamed_fork :: "rat part" where
  "unnamed_fork = \<lparr>category = ''Fork'', brand = ''Generic'', model = [],
     variant = None, weight_g = 2000, price_sgd = 100, other = []\<rparr>"

definition demo_picks :: "(string \<times> rat part option) list" where
  "demo_picks = [(''Fork'', Some fox34), (''Saddle'', None), (''Wheelset'', Some xm481)]"

definition bad_row :: "string option part" where
  "bad_row = \<lparr>category = ''Fork'', brand = ''RockShox'', model = ''SID'',
     variant = Some ''100mm'', weight_g = Some ''abc'', price_sgd = Some ''900'', other = []\<rparr>"

definition blank_row :: "string option part" where
  "blank_row = \<lparr>category = ''Wheelset'', brand = ''DT'', model = ''XM481'',
     variant = None, weight_g = Some [], price_sgd = None, other = []\<rparr>"

definition replay_args :: invocation where
  "replay_args = \<lparr>add_part = False,
     scenario_arg = Some (''light'', [''Fork'' \<mapsto> ''SID'', ''Wheelset'' \<mapsto> ''xm481'']),
     save_flag = True, clone_last = False, name_arg = None, auto_save = False\<rparr>"

definition sid_row :: "string option part" where
  "sid_row = \<lparr>category = ''Fork'', brand = ''RockShox'', model = ''SID'',
     variant = Some ''100mm'', weight_g = Some ''1700'', price_sgd = Some ''900'', other = []\<rparr>"

definition xm481_row :: "string option part" where
  "xm481_row = \<lparr>category = ''Wheelset'', brand = ''DT'', model = ''XM481'',
     variant = Some ''29 inch'', weight_g = Some ''1850'', price_sgd = Some ''400'', other = []\<rparr>"

definition demo_float :: "string \<rightharpoonup> rat" where
  "demo_float = [''1700'' \<mapsto> 1700, ''900'' \<mapsto> 900, ''1850'' \<mapsto> 1850, ''400'' \<mapsto> 400]"

section \<open>Properties of the resolver\<close>

lemma lower_char_idem: "lower_char (lower_char c) = lower_char c"
  by (simp add: lower_char_def Let_def)

lemma lower_idem: "lower (lower s) = lower s"
  by (simp add: lower_def lower_char_idem)

lemma lower_append: "lower (s @ t) = lower s @ lower t"
  by (simp add: lower_def)

lemma resolve_find: "resolve q L = List.find (spec_match q) L"
  by (induction L) (auto simp: spec_match_def)

lemma spec_match_lower: "spec_match (lower q) p = spec_match q p"
  by (simp add: spec_match_def lower_idem)

lemma spec_match_same_key:
  "brand p = brand p' \<Longrightarrow> model p = model p' \<Longrightarrow> spec_match q p = spec_match q p'"
  by (simp add: spec_match_def)

lemma resolve_duplicate:
  assumes "i < j" "j < length L" "brand (L ! i) = brand (L ! j)" "model (L ! i) = model (L ! j)"
    and "spec_match q (L ! j)"
  shows "\<exists>k\<le>i. resolve q L = Some (L ! k) \<and> (\<forall>m<k. \<not> spec_match q (L ! m))"
proof -
  have mi: "spec_match q (L ! i)"
    using assms spec_match_same_key [of "L ! i" "L ! j" q] by simp
  have "i < length L" using assms by simp
  then have "L ! i \<in> set L" by simp
  with mi have "List.find (spec_match q) L \<noteq> None"
    by (auto simp: find_None_iff)
  then obtain p where p: "List.find (spec_match q) L = Some p" by auto
  then obtain k where k: "k < length L" "spec_match q (L ! k)" "p = L ! k"
    "\<forall>m<k. \<not> spec_match q (L ! m)"
    by (auto simp: find_Some_iff)
  have "k \<le> i"
  proof (rule ccontr)
    assume "\<not> k \<le> i"
    then have "i < k" by simp
    with k(4) mi show False by blast
  qed
  with p k show ?thesis by (auto simp: resolve_find)
qed

section \<open>Properties of the catalog\<close>

lemma setdefault_append_keys:
  "map fst (setdefault_append k v d) = (if k \<in> fst ` set d then map fst d else map fst d @ [k])"
  by (induction d) (auto split: if_splits)

lemma setdefault_append_map_of:
  "map_of (setdefault_append k v d) =
     (map_of d)(k \<mapsto> (case map_of d k of None \<Rightarrow> [] | Some vs \<Rightarrow> vs) @ [v])"
  by (induction d) (auto simp: fun_eq_iff)

lemma setdefault_append_dom:
  "fst ` set (setdefault_append k v d) = insert k (fst ` set d)"
proof -
  have "set (map fst (setdefault_append k v d)) = insert k (set (map fst d))"
    by (auto simp: setdefault_append_keys)
  then show ?thesis by simp
qed

lemma grouped_distinct:
  "distinct (map fst acc) \<Longrightarrow> distinct (map fst (grouped parts acc))"
  unfolding grouped_def
  by (induction parts arbitrary: acc) (auto simp: setdefault_append_keys)

lemma grouped_keys:
  "fst ` set (grouped parts acc) = fst ` set acc \<union> category ` set parts"
  unfolding grouped_def
  by (induction parts arbitrary: acc) (auto simp: setdefault_append_dom)

lemma grouped_map_of:
  "map_of (grouped parts acc) c =
     (if c \<in> fst ` set acc \<or> c \<in> category ` set parts
      then Some ((case map_of acc c of None \<Rightarrow> [] | Some vs \<Rightarrow> vs)
             @ filter (\<lambda>p. category p = c) parts)
      else None)"
  unfolding grouped_def
proof (induction parts arbitrary: acc)
  case Nil
  then show ?case by (auto simp: map_of_eq_None_iff split: option.splits)
next
  case (Cons p parts)
  show ?case
    by (simp add: Cons.IH setdefault_append_map_of setdefault_append_dom split: option.splits)
qed

lemma group_by_category_grouped:
  "group_by_category parts = map (\<lambda>(k, ps). (k, sort_key sort_key_of ps)) (grouped parts [])"
  by (simp add: group_by_category_def grouped_def)

lemma group_by_category_keys: "map fst (group_by_category parts) = map fst (grouped parts [])"
  by (simp add: group_by_category_grouped case_prod_unfold comp_def)

lemma group_by_category_map_of:
  "map_of (group_by_category parts) c =
     (if c \<in> category ` set parts
      then Some (sort_key sort_key_of (filter (\<lambda>p. category p = c) parts))
      else None)"
  by (simp add: group_by_category_grouped map_of_map grouped_map_of)

lemma group_by_category_distinct: "distinct (map fst (group_by_category parts))"
  by (simp add: group_by_category_keys grouped_distinct)

lemma group_by_category_dom: "fst ` set (group_by_category parts) = category ` set parts"
proof -
  have "set (map fst (group_by_category parts)) = category ` set parts"
    using grouped_keys [of parts "[]"] by (simp add: group_by_category_keys)
  then show ?thesis by simp
qed

lemma group_by_category_entry:
  assumes "(c, opts) \<in> set (group_by_category parts)"
  shows "c \<in> category ` set parts"
    and "opts = sort_key sort_key_of (filter (\<lambda>p. category p = c) parts)"
proof -
  have "map_of (group_by_category parts) c = Some opts"
    using assms by (simp add: map_of_is_SomeI group_by_category_distinct)
  then show "c \<in> category ` set parts"
    and "opts = sort_key sort_key_of (filter (\<lambda>p. category p = c) parts)"
    by (auto simp: group_by_category_map_of split: if_splits)
qed

text \<open>
  C5. The keys of the catalog are distinct and are exactly the category values of the
  records; the option list of a category holds exactly the records of that category,
  sorted by (brand, model) in the lexicographic order of the character codes, and records
  with equal keys keep the order they have in the input.
\<close>

theorem group_by_category_sorted:
  "distinct (map fst (group_by_category parts))
   \<and> set (map fst (group_by_category parts)) = category ` set parts
   \<and> (\<forall>(c, opts) \<in> set (group_by_category parts).
         sorted (map sort_key_of opts)
         \<and> set opts = {p \<in> set parts. category p = c}
         \<and> length opts = length (filter (\<lambda>p. category p = c) parts)
         \<and> (\<forall>k. filter (\<lambda>p. sort_key_of p = k) opts
                = filter (\<lambda>p. sort_key_of p = k \<and> category p = c) parts))"
proof (intro conjI)
  show "distinct (map fst (group_by_category parts))"
    by (rule group_by_category_distinct)
  show "set (map fst (group_by_category parts)) = category ` set parts"
    using group_by_category_dom [of parts] by simp
  show "\<forall>(c, opts) \<in> set (group_by_category parts).
         sorted (map sort_key_of opts)
         \<and> set opts = {p \<in> set parts. category p = c}
         \<and> length opts = length (filter (\<lambda>p. category p = c) parts)
         \<and> (\<forall>k. filter (\<lambda>p. sort_key_of p = k) opts
                = filter (\<lambda>p. sort_key_of p = k \<and> category p = c) parts)"
  proof (clarify, intro conjI allI)
    fix c opts
    assume "(c, opts) \<in> set (group_by_category parts)"
    then have opts: "opts = sort_key sort_key_of (filter (\<lambda>p. category p = c) parts)"
      by (rule group_by_category_entry)
    show "sorted (map sort_key_of opts)" by (simp add: opts)
    show "set opts = {p \<in> set parts. category p = c}" by (auto simp: opts)
    show "length opts = length (filter (\<lambda>p. category p = c) parts)" by (simp add: opts)
    fix k
    show "filter (\<lambda>p. sort_key_of p = k) opts
        = filter (\<lambda>p. sort_key_of p = k \<and> category p = c) parts"
      by (simp add: opts sort_key_stable conj_commute)
  qed
qed

theorem group_by_category_sorted_witness:
  "group_by_category [xm481, fox36, sid_b, fox34, sid_a]
     = [(''Wheelset'', [xm481]), (''Fork'', [fox34, sid_b, sid_a, fox36])]
   \<and> sorted (map sort_key_of [fox34, sid_b, sid_a, fox36])
   \<and> filter (\<lambda>p. sort_key_of p = (''RockShox'', ''SID'')) [fox34, sid_b, sid_a, fox36]
       = [sid_b, sid_a]"
proof -
  let ?parts = "[xm481, fox36, sid_b, fox34, sid_a]"
  let ?opts = "[fox34, sid_b, sid_a, fox36]"
  have ev: "group_by_category ?parts = [(''Wheelset'', [xm481]), (''Fork'', ?opts)]"
    by code_simp
  then have mem: "(''Fork'', ?opts) \<in> set (group_by_category ?parts)"
    by simp
  have "\<forall>(c, opts) \<in> set (group_by_category ?parts).
         sorted (map sort_key_of opts)
         \<and> set opts = {p \<in> set ?parts. category p = c}
         \<and> length opts = length (filter (\<lambda>p. category p = c) ?parts)
         \<and> (\<forall>k. filter (\<lambda>p. sort_key_of p = k) opts
                = filter (\<lambda>p. sort_key_of p = k \<and> category p = c) ?parts)"
    using group_by_category_sorted [of ?parts] by blast
  with mem have s: "sorted (map sort_key_of ?opts)"
    and f: "filter (\<lambda>p. sort_key_of p = (''RockShox'', ''SID'')) ?opts
        = filter (\<lambda>p. sort_key_of p = (''RockShox'', ''SID'') \<and> category p = ''Fork'') ?parts"
    by blast+
  have "filter (\<lambda>p. sort_key_of p = (''RockShox'', ''SID'') \<and> category p = ''Fork'') ?parts
      = [sid_b, sid_a]"
    by code_simp
  with ev s f show ?thesis by simp
qed

section \<open>Properties of the selection sessions\<close>

lemma mapping_loop_cong:
  assumes "\<forall>c\<in>set keys. m1 c = m2 c \<or> (m1 c \<in> {None, Some []} \<and> m2 c \<in> {None, Some []})"
  shows "mapping_loop m1 cats keys chosen = mapping_loop m2 cats keys chosen"
  using assms
proof (induction keys arbitrary: chosen)
  case Nil
  then show ?case by simp
next
  case (Cons cat keys)
  then have IH: "\<And>ch. mapping_loop m1 cats keys ch = mapping_loop m2 cats keys ch"
    by simp
  from Cons.prems have "m1 cat = m2 cat \<or> (m1 cat \<in> {None, Some []} \<and> m2 cat \<in> {None, Some []})"
    by simp
  then show ?case
    by (auto simp: IH split: option.splits)
qed

lemma mapping_loop_result:
  assumes "set keys \<subseteq> fst ` set cats" "distinct keys" "set keys \<inter> fst ` set chosen = {}"
  shows "\<exists>picks. mapping_loop mapping cats keys chosen = Inr picks
      \<and> map fst picks = map fst chosen @ keys
      \<and> (\<forall>c\<in>set keys. map_of picks c = Some (mapping_pick mapping cats c))
      \<and> (\<forall>c. c \<notin> set keys \<longrightarrow> map_of picks c = map_of chosen c)"
  using assms
proof (induction keys arbitrary: chosen)
  case Nil
  then show ?case by simp
next
  case (Cons cat keys)
  from Cons.prems(1) obtain options where opts: "map_of cats cat = Some options"
    by (cases "map_of cats cat") (auto simp: map_of_eq_None_iff)
  let ?ch = "AList.update cat (mapping_pick mapping cats cat) chosen"
  have step: "mapping_loop mapping cats (cat # keys) chosen = mapping_loop mapping cats keys ?ch"
    by (simp add: mapping_pick_def opts split: option.splits)
  have new: "cat \<notin> fst ` set chosen" using Cons.prems(3) by auto
  then have keys_ch: "map fst ?ch = map fst chosen @ [cat]"
    by (simp add: update_keys)
  have "set keys \<inter> fst ` set ?ch = {}"
    using Cons.prems(2,3) by (auto simp: dom_update)
  with Cons.IH [of ?ch] Cons.prems(1,2)
  obtain picks where picks: "mapping_loop mapping cats keys ?ch = Inr picks"
    "map fst picks = map fst ?ch @ keys"
    "\<forall>c\<in>set keys. map_of picks c = Some (mapping_pick mapping cats c)"
    "\<forall>c. c \<notin> set keys \<longrightarrow> map_of picks c = map_of ?ch c"
    by auto
  have "cat \<notin> set keys" using Cons.prems(2) by simp
  with picks(4) have "map_of picks cat = Some (mapping_pick mapping cats cat)"
    by (simp add: update_conv')
  moreover have "\<forall>c. c \<notin> set (cat # keys) \<longrightarrow> map_of picks c = map_of chosen c"
    using picks(4) by (simp add: update_conv')
  ultimately show ?case
    using step picks(1,2,3) keys_ch by simp
qed

lemma apply_scenario_mapping_result:
  assumes "distinct (map fst cats)"
  shows "\<exists>picks. apply_scenario_mapping mapping cats = Inr picks
      \<and> map fst picks = sort (map fst cats)
      \<and> (\<forall>c\<in>fst ` set cats. map_of picks c = Some (mapping_pick mapping cats c))"
proof -
  have "set (sort (map fst cats)) \<subseteq> fst ` set cats" "distinct (sort (map fst cats))"
    "set (sort (map fst cats)) \<inter> fst ` set [] = {}"
    using assms by auto
  from mapping_loop_result [OF this, of mapping]
  show ?thesis by (auto simp: apply_scenario_mapping_def)
qed


lemma pick_for_category_blank:
  "pick_for_category options preselect ([] # inp) = Inr (preselect, inp)"
  by (simp add: pick_for_category.simps strip_def split: option.splits)

lemma session_loop_keys:
  "session_loop cats pre keys picks inp = Inr (picks', rest) \<Longrightarrow> set keys \<subseteq> fst ` set picks
   \<Longrightarrow> map fst picks' = map fst picks"
proof (induction keys arbitrary: picks inp)
  case Nil
  then show ?case by simp
next
  case (Cons cat keys)
  from Cons.prems(1) obtain options choice inp1 where
    step: "pick_for_category options (dict_get pre cat) inp = Inr (choice, inp1)"
      "session_loop cats pre keys (AList.update cat choice picks) inp1 = Inr (picks', rest)"
    by (auto split: option.splits sum.splits)
  have mem: "cat \<in> fst ` set picks" using Cons.prems(2) by simp
  then have same: "map fst (AList.update cat choice picks) = map fst picks"
    by (simp add: update_keys)
  then have "set keys \<subseteq> fst ` set (AList.update cat choice picks)"
    using Cons.prems(2) by (simp add: dom_update insert_absorb mem subset_insertI2)
  from Cons.IH [OF step(2) this] same show ?case by simp
qed

lemma session_loop_blank:
  "set keys \<subseteq> fst ` set cats \<Longrightarrow>
   \<exists>picks'. session_loop cats pre keys picks (replicate (length keys) [] @ rest) = Inr (picks', rest)"
proof (induction keys arbitrary: picks)
  case Nil
  then show ?case by simp
next
  case (Cons cat keys)
  from Cons.prems obtain options where "map_of cats cat = Some options"
    by (cases "map_of cats cat") (auto simp: map_of_eq_None_iff)
  with Cons show ?case
    by (simp add: pick_for_category_blank)
qed

text \<open>
  C1. Resolving a query against an option list returns the first record, in the list's
  order, that matches in the sense of the specification, and none exactly when no record
  matches; of two records with the same brand and model the later one is never preferred
  to the earlier; the query and its lower-cased form resolve alike. In a mapping-driven
  session the pick of a category with a non-empty query is this result.
\<close>

theorem resolve_first_match:
  "(resolve q L = None \<longleftrightarrow> (\<forall>p\<in>set L. \<not> spec_match q p))
   \<and> (\<forall>p. resolve q L = Some p \<longleftrightarrow>
         (\<exists>k<length L. p = L ! k \<and> spec_match q (L ! k) \<and> (\<forall>m<k. \<not> spec_match q (L ! m))))
   \<and> (\<forall>i j. i < j \<and> j < length L \<and> brand (L ! i) = brand (L ! j)
          \<and> model (L ! i) = model (L ! j) \<and> spec_match q (L ! j)
        \<longrightarrow> (\<exists>k\<le>i. resolve q L = Some (L ! k) \<and> (\<forall>m<k. \<not> spec_match q (L ! m))))
   \<and> resolve (lower q) L = resolve q L
   \<and> (\<forall>mapping cats cat. distinct (map fst cats) \<and> map_of cats cat = Some L
          \<and> mapping cat = Some q \<and> q \<noteq> []
        \<longrightarrow> (\<exists>picks. apply_scenario_mapping mapping cats = Inr picks
              \<and> map_of picks cat = Some (resolve q L)))"
proof (intro conjI allI impI)
  show "resolve q L = None \<longleftrightarrow> (\<forall>p\<in>set L. \<not> spec_match q p)"
    by (auto simp: resolve_find find_None_iff)
next
  fix p
  show "resolve q L = Some p \<longleftrightarrow>
    (\<exists>k<length L. p = L ! k \<and> spec_match q (L ! k) \<and> (\<forall>m<k. \<not> spec_match q (L ! m)))"
    unfolding resolve_find find_Some_iff by blast
next
  fix i j
  assume "i < j \<and> j < length L \<and> brand (L ! i) = brand (L ! j)
    \<and> model (L ! i) = model (L ! j) \<and> spec_match q (L ! j)"
  then show "\<exists>k\<le>i. resolve q L = Some (L ! k) \<and> (\<forall>m<k. \<not> spec_match q (L ! m))"
    using resolve_duplicate [of i j L q] by blast
next
  show "resolve (lower q) L = resolve q L"
    by (simp add: resolve_find spec_match_lower cong: find_cong)
next
  fix mapping :: "string \<rightharpoonup> string" and cats :: "(string \<times> ('a, 'b) part_scheme list) list"
    and cat
  assume a: "distinct (map fst cats) \<and> map_of cats cat = Some L
    \<and> mapping cat = Some q \<and> q \<noteq> []"
  then have "cat \<in> fst ` set cats"
    by (auto dest: map_of_SomeD intro: rev_image_eqI)
  moreover from a obtain picks where "apply_scenario_mapping mapping cats = Inr picks"
    "\<forall>c\<in>fst ` set cats. map_of picks c = Some (mapping_pick mapping cats c)"
    using apply_scenario_mapping_result [of cats mapping] by blast
  ultimately show "\<exists>picks. apply_scenario_mapping mapping cats = Inr picks
      \<and> map_of picks cat = Some (resolve q L)"
    using a by (auto simp: mapping_pick_def)
qed

theorem resolve_first_match_witness:
  "resolve ''rockshox SID'' [fox34, sid_a, sid_b] = Some sid_a
   \<and> resolve ''Pike'' [fox34, sid_a, sid_b] = None
   \<and> spec_match ''rockshox SID'' sid_b
   \<and> (\<exists>k\<le>1. resolve ''rockshox SID'' [fox34, sid_a, sid_b] = Some ([fox34, sid_a, sid_b] ! k))
   \<and> resolve (lower ''rockshox SID'') [fox34, sid_a, sid_b] = Some sid_a
   \<and> (\<exists>picks. apply_scenario_mapping [''Fork'' \<mapsto> ''rockshox SID''] [(''Fork'', [fox34, sid_a, sid_b])]
         = Inr picks \<and> map_of picks ''Fork'' = Some (Some sid_a))"
proof -
  let ?L = "[fox34, sid_a, sid_b]"
  have m: "distinct (map fst [(''Fork'', ?L)]) \<and> map_of [(''Fork'', ?L)] ''Fork'' = Some ?L
      \<and> [''Fork'' \<mapsto> ''rockshox SID''] ''Fork'' = Some ''rockshox SID'' \<and> ''rockshox SID'' \<noteq> []"
    by simp
  have ev: "spec_match ''rockshox SID'' sid_b" "resolve ''Pike'' ?L = None"
    "resolve ''rockshox SID'' ?L = Some sid_a"
    by code_simp+
  have dup: "(1::nat) < 2 \<and> 2 < length ?L \<and> brand (?L ! 1) = brand (?L ! 2)
      \<and> model (?L ! 1) = model (?L ! 2) \<and> spec_match ''rockshox SID'' (?L ! 2)"
    using ev(1) by (simp add: sid_a_def sid_b_def)
  have inst: "(\<forall>i j. i < j \<and> j < length ?L \<and> brand (?L ! i) = brand (?L ! j)
          \<and> model (?L ! i) = model (?L ! j) \<and> spec_match ''rockshox SID'' (?L ! j)
        \<longrightarrow> (\<exists>k\<le>i. resolve ''rockshox SID'' ?L = Some (?L ! k)
              \<and> (\<forall>m<k. \<not> spec_match ''rockshox SID'' (?L ! m))))"
    "resolve (lower ''rockshox SID'') ?L = resolve ''rockshox SID'' ?L"
    "\<forall>mapping cats cat. distinct (map fst cats) \<and> map_of cats cat = Some ?L
          \<and> mapping cat = Some ''rockshox SID'' \<and> ''rockshox SID'' \<noteq> []
        \<longrightarrow> (\<exists>picks. apply_scenario_mapping mapping cats = Inr picks
              \<and> map_of picks cat = Some (resolve ''rockshox SID'' ?L))"
    using resolve_first_match [of "''rockshox SID''" ?L] by blast+
  from inst(1) dup have "\<exists>k\<le>1. resolve ''rockshox SID'' ?L = Some (?L ! k)
      \<and> (\<forall>m<k. \<not> spec_match ''rockshox SID'' (?L ! m))"
    by blast
  then have first: "\<exists>k\<le>1. resolve ''rockshox SID'' ?L = Some (?L ! k)" by blast
  have "\<exists>picks. apply_scenario_mapping [''Fork'' \<mapsto> ''rockshox SID''] [(''Fork'', ?L)] = Inr picks
      \<and> map_of picks ''Fork'' = Some (resolve ''rockshox SID'' ?L)"
    using inst(3) m by blast
  with ev inst(2) first show ?thesis by simp
qed

text \<open>
  C6. For a catalog (a dict, so its keys are distinct) the mapping-driven session returns
  picks whose keys are the catalog's categories in sorted order; every run of the
  interactive session that ends returns picks with these keys in this order, and the run
  in which every category is skipped with an empty line does end. The sorted keys have no
  duplicate and are exactly the catalog's keys.
\<close>

theorem picks_cover_categories:
  assumes "distinct (map fst cats)"
  shows "(\<exists>picks. apply_scenario_mapping mapping cats = Inr picks
            \<and> map fst picks = sort (map fst cats))
       \<and> (\<forall>inp picks rest. interactive_session cats pre inp = Inr (picks, rest)
            \<longrightarrow> map fst picks = sort (map fst cats))
       \<and> (\<exists>picks. interactive_session cats pre (replicate (length cats) [] @ rest)
            = Inr (picks, rest))
       \<and> distinct (sort (map fst cats))
       \<and> set (sort (map fst cats)) = fst ` set cats
       \<and> sorted (sort (map fst cats))"
proof (intro conjI allI impI)
  show "\<exists>picks. apply_scenario_mapping mapping cats = Inr picks
      \<and> map fst picks = sort (map fst cats)"
    using apply_scenario_mapping_result [OF assms, of mapping] by blast
next
  fix inp picks rest
  let ?init = "map (\<lambda>k. (k, None)) (sort (map fst cats)) :: (string \<times> 'a part option) list"
  assume "interactive_session cats pre inp = Inr (picks, rest)"
  then have run: "session_loop cats pre (sort (map fst cats)) ?init inp = Inr (picks, rest)"
    by (simp add: interactive_session_def)
  have "set (sort (map fst cats)) \<subseteq> fst ` set ?init"
    by (simp add: image_comp comp_def)
  from session_loop_keys [OF run this]
  have "map fst picks = map fst ?init" .
  then show "map fst picks = sort (map fst cats)"
    by (simp add: comp_def)
next
  have "set (sort (map fst cats)) \<subseteq> fst ` set cats" by simp
  from session_loop_blank [OF this, of pre _ rest]
  show "\<exists>picks. interactive_session cats pre (replicate (length cats) [] @ rest)
      = Inr (picks, rest)"
    by (simp add: interactive_session_def)
next
  show "distinct (sort (map fst cats))" using assms by simp
  show "set (sort (map fst cats)) = fst ` set cats" by simp
  show "sorted (sort (map fst cats))" by simp
qed

theorem picks_cover_categories_witness:
  "distinct (map fst demo_cats)
   \<and> apply_scenario_mapping [''Fork'' \<mapsto> ''SID'', ''Wheelset'' \<mapsto> ''xm481'', ''Saddle'' \<mapsto> ''Flite''] demo_cats
       = Inr [(''Fork'', Some sid_b), (''Wheelset'', Some xm481)]
   \<and> interactive_session demo_cats [] [''2'', ''s'', ''XM'', ''1'']
       = Inr ([(''Fork'', Some sid_b), (''Wheelset'', Some xm481)], [])
   \<and> (\<exists>picks. interactive_session demo_cats [] (replicate (length demo_cats) [] @ [''y''])
         = Inr (picks, [''y'']))
   \<and> sort (map fst demo_cats) = [''Fork'', ''Wheelset'']"
proof -
  have d: "distinct (map fst demo_cats)"
    by (simp add: demo_cats_def)
  have ev: "apply_scenario_mapping [''Fork'' \<mapsto> ''SID'', ''Wheelset'' \<mapsto> ''xm481'', ''Saddle'' \<mapsto> ''Flite''] demo_cats
       = Inr [(''Fork'', Some sid_b), (''Wheelset'', Some xm481)]"
    "interactive_session demo_cats [] [''2'', ''s'', ''XM'', ''1'']
       = Inr ([(''Fork'', Some sid_b), (''Wheelset'', Some xm481)], [])"
    "sort (map fst demo_cats) = [''Fork'', ''Wheelset'']"
    by code_simp+
  have "\<exists>picks. interactive_session demo_cats [] (replicate (length demo_cats) [] @ [''y''])
         = Inr (picks, [''y''])"
    using picks_cover_categories [OF d, of _ "[]" "[''y'']"] by blast
  with d ev show ?thesis by simp
qed

text \<open>
  C10. A mapping entry with the empty string gives the picks of the mapping without the
  entry, and the category's pick is none; an entry whose key is no category of the
  catalog changes nothing.
\<close>

theorem empty_entry_is_absent:
  "apply_scenario_mapping (mapping(cat \<mapsto> [])) cats
     = apply_scenario_mapping (mapping(cat := None)) cats
   \<and> (k \<notin> fst ` set cats \<longrightarrow>
        apply_scenario_mapping (mapping(k \<mapsto> want)) cats
          = apply_scenario_mapping (mapping(k := None)) cats)
   \<and> (distinct (map fst cats) \<and> cat \<in> fst ` set cats \<and> mapping cat = Some [] \<longrightarrow>
        (\<exists>picks. apply_scenario_mapping mapping cats = Inr picks
           \<and> map_of picks cat = Some None))"
proof (intro conjI impI)
  show "apply_scenario_mapping (mapping(cat \<mapsto> [])) cats
     = apply_scenario_mapping (mapping(cat := None)) cats"
    unfolding apply_scenario_mapping_def
    by (rule mapping_loop_cong) simp
next
  assume "k \<notin> fst ` set cats"
  then have "\<forall>c\<in>set (sort (map fst cats)). (mapping(k \<mapsto> want)) c = (mapping(k := None)) c"
    by auto
  then show "apply_scenario_mapping (mapping(k \<mapsto> want)) cats
      = apply_scenario_mapping (mapping(k := None)) cats"
    unfolding apply_scenario_mapping_def
    by (intro mapping_loop_cong) blast
next
  assume a: "distinct (map fst cats) \<and> cat \<in> fst ` set cats \<and> mapping cat = Some []"
  then obtain picks where "apply_scenario_mapping mapping cats = Inr picks"
    "\<forall>c\<in>fst ` set cats. map_of picks c = Some (mapping_pick mapping cats c)"
    using apply_scenario_mapping_result [of cats mapping] by blast
  with a show "\<exists>picks. apply_scenario_mapping mapping cats = Inr picks
      \<and> map_of picks cat = Some None"
    by (auto simp: mapping_pick_def)
qed


theorem empty_entry_is_absent_witness:
  "''Saddle'' \<notin> fst ` set [(''Fork'', [unnamed_fork, sid_a])]
   \<and> apply_scenario_mapping [''Saddle'' \<mapsto> ''Flite''] [(''Fork'', [unnamed_fork, sid_a])]
       = apply_scenario_mapping Map.empty [(''Fork'', [unnamed_fork, sid_a])]
   \<and> apply_scenario_mapping [''Fork'' \<mapsto> []] [(''Fork'', [unnamed_fork, sid_a])]
       = Inr [(''Fork'', None)]
   \<and> (\<exists>picks. apply_scenario_mapping [''Fork'' \<mapsto> []] [(''Fork'', [unnamed_fork, sid_a])]
         = Inr picks \<and> map_of picks ''Fork'' = Some None)
   \<and> resolve [] [unnamed_fork, sid_a] = Some unnamed_fork"
proof -
  let ?cats = "[(''Fork'', [unnamed_fork, sid_a])]"
  have k: "''Saddle'' \<notin> fst ` set ?cats" by simp
  have h: "distinct (map fst ?cats) \<and> ''Fork'' \<in> fst ` set ?cats
      \<and> [''Fork'' \<mapsto> []] ''Fork'' = Some []"
    by simp
  have ev: "resolve [] [unnamed_fork, sid_a] = Some unnamed_fork"
    by code_simp
  have i1: "apply_scenario_mapping [''Saddle'' \<mapsto> ''Flite''] ?cats
       = apply_scenario_mapping Map.empty ?cats"
    using empty_entry_is_absent [of Map.empty _ ?cats "''Saddle''" "''Flite''"] k by simp
  have p: "\<exists>picks. apply_scenario_mapping [''Fork'' \<mapsto> []] ?cats = Inr picks
      \<and> map_of picks ''Fork'' = Some None"
    using empty_entry_is_absent [of "[''Fork'' \<mapsto> []]" "''Fork''" ?cats] h by blast
  have "apply_scenario_mapping [''Fork'' \<mapsto> []] ?cats = Inr [(''Fork'', None)]"
    by (simp add: apply_scenario_mapping_def)
  with k i1 ev p show ?thesis by simp
qed


section \<open>Properties of the scenario store\<close>

lemma path_join_last: "b \<noteq> [] \<Longrightarrow> last (path_join a b) = last b"
  by (simp add: path_join_def)

lemma report_paths_differ:
  "path_join rd (name @ ''.md'') \<noteq> path_join sd (name' @ ''.json'')"
  "path_join rd (name @ ''.csv'') \<noteq> path_join sd (name' @ ''.json'')"
proof -
  have "last (path_join rd (name @ ''.md'')) = CHR ''d''"
    "last (path_join rd (name @ ''.csv'')) = CHR ''v''"
    "last (path_join sd (name' @ ''.json'')) = CHR ''n''"
    by (simp_all add: path_join_last)
  then show "path_join rd (name @ ''.md'') \<noteq> path_join sd (name' @ ''.json'')"
    "path_join rd (name @ ''.csv'') \<noteq> path_join sd (name' @ ''.json'')"
    by auto
qed

lemma save_scenario_path:
  "fst (save_scenario sd rd now name picks totals files) = path_join sd (name @ ''.json'')"
  by (simp add: save_scenario_def Let_def)

lemma save_scenario_load:
  "load_scenario (path_join sd (name @ ''.json''))
     (snd (save_scenario sd rd now name picks totals files))
   = Some (save_data now name picks totals)"
  by (simp add: save_scenario_def Let_def load_scenario_def report_paths_differ [THEN not_sym])

lemma map_filter_Some:
  "map (\<lambda>(k, p). (k, Some p))
     (List.map_filter (\<lambda>(k, v). case v of None \<Rightarrow> None | Some p \<Rightarrow> Some (k, p)) picks)
   = filter (\<lambda>(k, v). v \<noteq> None) picks"
  by (induction picks) (auto simp: List.map_filter_simps split: option.splits)

lemma chosen_parts_saved:
  "chosen_parts (map (\<lambda>(k, p). (k, Some p))
     (List.map_filter (\<lambda>(k, v). case v of None \<Rightarrow> None | Some p \<Rightarrow> Some (k, p)) picks))
   = chosen_parts picks"
  by (induction picks) (auto simp: chosen_parts_def List.map_filter_simps split: option.splits)

lemma chosen_parts_Some: "chosen_parts (map (\<lambda>(k, p). (k, Some p)) saved) = map snd saved"
  by (induction saved) (auto simp: chosen_parts_def List.map_filter_simps)

text \<open>
  C2. Saving picks with the totals \<^verbatim>\<open>main\<close> computes for them stores a scenario that, read
  back from the returned path, holds exactly the entries of the picks that are not none,
  in their order; its stored totals are the sums of the weights and of the prices of these
  entries, and computing the totals again from the stored picks gives the stored totals.
\<close>

theorem saved_totals_roundtrip:
  "case save_scenario scen_dir report_dir now name picks (summarize picks) files of
     (path, files') \<Rightarrow>
       (\<exists>data. load_scenario path files' = Some data
          \<and> map (\<lambda>(k, p). (k, Some p)) (scen_picks data) = filter (\<lambda>(k, v). v \<noteq> None) picks
          \<and> total_weight_g data = py_sum (map (\<lambda>(k, p). weight_g p) (scen_picks data))
          \<and> total_price_sgd data = py_sum (map (\<lambda>(k, p). price_sgd p) (scen_picks data))
          \<and> scenario_totals data = (total_weight_g data, total_price_sgd data))"
proof -
  let ?data = "save_data now name picks (summarize picks)"
  have load: "load_scenario (fst (save_scenario scen_dir report_dir now name picks (summarize picks) files))
      (snd (save_scenario scen_dir report_dir now name picks (summarize picks) files)) = Some ?data"
    by (simp add: save_scenario_path save_scenario_load)
  have stored: "map (\<lambda>(k, p). (k, Some p)) (scen_picks ?data) = filter (\<lambda>(k, v). v \<noteq> None) picks"
    by (simp add: save_data_def map_filter_Some)
  have parts: "map snd (scen_picks ?data) = chosen_parts picks"
    using chosen_parts_saved [of picks] chosen_parts_Some [of "scen_picks ?data"]
    by (simp add: save_data_def)
  have w: "total_weight_g ?data = py_sum (map (\<lambda>(k, p). weight_g p) (scen_picks ?data))"
  proof -
    have "map (\<lambda>(k, p). weight_g p) (scen_picks ?data) = map weight_g (map snd (scen_picks ?data))"
      by (simp add: case_prod_unfold comp_def)
    then show ?thesis by (simp add: parts) (simp add: save_data_def summarize_def)
  qed
  have p: "total_price_sgd ?data = py_sum (map (\<lambda>(k, p). price_sgd p) (scen_picks ?data))"
  proof -
    have "map (\<lambda>(k, p). price_sgd p) (scen_picks ?data) = map price_sgd (map snd (scen_picks ?data))"
      by (simp add: case_prod_unfold comp_def)
    then show ?thesis by (simp add: parts) (simp add: save_data_def summarize_def)
  qed
  have again: "scenario_totals ?data = (total_weight_g ?data, total_price_sgd ?data)"
    using chosen_parts_saved [of picks]
    by (simp add: scenario_totals_def summarize_def save_data_def)
  from load stored w p again show ?thesis
    by (simp add: case_prod_unfold)
qed

text \<open>
  C7. Saving never fails on a name in use: whatever the files held before, and in
  particular after an earlier save under the same name, the path of that name holds the
  scenario saved last.
\<close>

theorem save_overwrites:
  "fst (save_scenario scen_dir report_dir now name picks totals files)
     = path_join scen_dir (name @ ''.json'')
   \<and> load_scenario (path_join scen_dir (name @ ''.json''))
       (snd (save_scenario scen_dir report_dir now name picks totals files))
     = Some (save_data now name picks totals)
   \<and> load_scenario (path_join scen_dir (name @ ''.json''))
       (snd (save_scenario scen_dir report_dir now' name picks' totals'
          (snd (save_scenario scen_dir report_dir now name picks totals files))))
     = Some (save_data now' name picks' totals')"
  by (simp add: save_scenario_path save_scenario_load)

section \<open>Properties of the reports\<close>

lemma py_int_truncates:
  fixes x :: "'n::floor_ceiling"
  shows "\<bar>of_int (py_int x) :: 'n\<bar> \<le> \<bar>x\<bar> \<and> \<bar>x - of_int (py_int x)\<bar> < 1"
proof (cases "0 \<le> x")
  case True
  then have "0 \<le> \<lfloor>x\<rfloor>" by simp
  then have a: "(0::'n) \<le> of_int \<lfloor>x\<rfloor>" by simp
  have b: "of_int \<lfloor>x\<rfloor> \<le> x" "x < of_int \<lfloor>x\<rfloor> + 1" by linarith+
  have "py_int x = \<lfloor>x\<rfloor>" using True by (simp add: py_int_def)
  with a b True show ?thesis by (simp only:) linarith
next
  case False
  then have "\<lceil>x\<rceil> \<le> 0" by (simp add: ceiling_le_zero)
  then have a: "of_int \<lceil>x\<rceil> \<le> (0::'n)" by simp
  have b: "x \<le> of_int \<lceil>x\<rceil>" "of_int \<lceil>x\<rceil> < x + 1" by linarith+
  have "py_int x = \<lceil>x\<rceil>" using False by (simp add: py_int_def)
  with a b False show ?thesis by (simp only:) linarith
qed

lemma py_int_of_int: "py_int (of_int n :: 'n::floor_ceiling) = n"
  by (simp add: py_int_def)

lemma round_half_even_of_int: "round_half_even (of_int n :: 'n::floor_ceiling) = n"
  by (simp add: round_half_even_def)

text \<open>
  C8, as the code has it. The flat report is the header row followed by one row for each
  pick that is not none, in the picks' order: the picks' key, the brand, the model, the
  variant (empty when absent), the weight truncated towards zero to an integer, and the
  price as it is. The tabular document lists the same picks in the same order with weight
  and price rounded to the nearest integer; for a whole-number weight or price the two
  reports show the same number.
\<close>

theorem csv_report_rows:
  "let data = save_data now name picks totals; saved = scen_picks data in
     map (\<lambda>(k, p). (k, Some p)) saved = filter (\<lambda>(k, v). v \<noteq> None) picks
   \<and> csv_report data =
       [TextCell ''category'', TextCell ''brand'', TextCell ''model'', TextCell ''variant'',
        TextCell ''weight_g'', TextCell ''price_sgd'']
       # map (\<lambda>(cat, v). [TextCell cat, TextCell (brand v), TextCell (model v),
                TextCell (variant_text v), IntCell (py_int (weight_g v)), NumCell (price_sgd v)])
           saved
   \<and> (\<forall>(cat, v) \<in> set saved.
         \<bar>of_int (py_int (weight_g v))\<bar> \<le> \<bar>weight_g v\<bar>
         \<and> \<bar>weight_g v - of_int (py_int (weight_g v))\<bar> < 1
         \<and> (\<forall>n. weight_g v = of_int n \<longrightarrow>
               py_int (weight_g v) = n \<and> round_half_even (weight_g v) = n)
         \<and> (\<forall>n. price_sgd v = of_int n \<longrightarrow> round_half_even (price_sgd v) = n))
   \<and> md_report data =
       [''# Scenario: '' @ name, [],
        ''| Category | Brand | Model | Variant | Weight (g) | Price (SGD) |'',
        ''|---|---|---|---|---:|---:|'']
       @ map (\<lambda>(cat, v). ''| '' @ cat @ '' | '' @ brand v @ '' | '' @ model v @ '' | ''
                @ variant_text v @ '' | '' @ fmt0 (weight_g v) @ '' | ''
                @ fmt0 (price_sgd v) @ '' |'') saved
       @ [[CHR 0x0A] @ ''**Totals:** '' @ fmt0 (fst totals) @ '' g,  $''
          @ fmt0 (snd totals) @ '' SGD'' @ [CHR 0x0A]]"
proof -
  have rows: "csv_row = (\<lambda>(cat, v). [TextCell cat, TextCell (brand v), TextCell (model v),
      TextCell (variant_text v), IntCell (py_int (weight_g v)), NumCell (price_sgd v :: 'a)])"
    by (simp add: fun_eq_iff csv_row_def)
  have lines: "md_row = (\<lambda>(cat, v). ''| '' @ cat @ '' | '' @ brand v @ '' | '' @ model v @ '' | ''
      @ variant_text v @ '' | '' @ fmt0 (weight_g v :: 'a) @ '' | '' @ fmt0 (price_sgd v) @ '' |'')"
    by (simp add: fun_eq_iff md_row_def)
  have stored: "map (\<lambda>(k, p). (k, Some p)) (scen_picks (save_data now name picks totals))
      = filter (\<lambda>(k, v). v \<noteq> None) picks"
    by (simp add: save_data_def map_filter_Some)
  have trunc: "\<forall>(cat, v) \<in> set (scen_picks (save_data now name picks totals)).
         \<bar>of_int (py_int (weight_g v)) :: 'a\<bar> \<le> \<bar>weight_g v\<bar>
         \<and> \<bar>weight_g v - of_int (py_int (weight_g v))\<bar> < 1
         \<and> (\<forall>n. weight_g v = of_int n \<longrightarrow>
               py_int (weight_g v) = n \<and> round_half_even (weight_g v) = n)
         \<and> (\<forall>n. price_sgd v = of_int n \<longrightarrow> round_half_even (price_sgd v) = n)"
    using py_int_truncates py_int_of_int round_half_even_of_int by (auto simp: case_prod_unfold)
  show ?thesis
    unfolding Let_def
    apply (intro conjI)
       apply (rule stored)
      apply (simp add: csv_report_def csv_header_def rows)
     apply (rule trunc)
    apply (simp add: md_report_def lines save_data_def)
    done
qed


theorem csv_report_rows_witness:
  "(''Wheelset'', xm481) \<in> set (scen_picks (save_data ''2026-01-01T10:00:00'' ''demo'' demo_picks (3550, 1300)))
   \<and> weight_g xm481 = of_int 1850
   \<and> py_int (weight_g xm481) = 1850
   \<and> round_half_even (weight_g xm481) = 1850
   \<and> \<bar>weight_g fox34 - of_int (py_int (weight_g fox34))\<bar> < 1
   \<and> py_int (weight_g fox34) = 1700
   \<and> round_half_even (weight_g fox34) = 1701"
proof -
  let ?data = "save_data ''2026-01-01T10:00:00'' ''demo'' demo_picks (3550, 1300)"
  have mem: "(''Wheelset'', xm481) \<in> set (scen_picks ?data)"
    "(''Fork'', fox34) \<in> set (scen_picks ?data)"
    by (simp_all add: save_data_def demo_picks_def List.map_filter_simps)
  have w: "weight_g xm481 = of_int 1850" by (simp add: xm481_def)
  have ev: "py_int (weight_g fox34) = 1700" "round_half_even (weight_g fox34) = 1701"
    by code_simp+
  have all: "\<forall>(cat, v) \<in> set (scen_picks ?data).
         \<bar>of_int (py_int (weight_g v))\<bar> \<le> \<bar>weight_g v\<bar>
         \<and> \<bar>weight_g v - of_int (py_int (weight_g v))\<bar> < 1
         \<and> (\<forall>n. weight_g v = of_int n \<longrightarrow>
               py_int (weight_g v) = n \<and> round_half_even (weight_g v) = n)
         \<and> (\<forall>n. price_sgd v = of_int n \<longrightarrow> round_half_even (price_sgd v) = n)"
    using csv_report_rows [of "''2026-01-01T10:00:00''" "''demo''" demo_picks "(3550, 1300)"]
    unfolding Let_def by blast
  from all mem(1) w have "py_int (weight_g xm481) = 1850 \<and> round_half_even (weight_g xm481) = 1850"
    by blast
  moreover from all mem(2) have "\<bar>weight_g fox34 - of_int (py_int (weight_g fox34))\<bar> < 1"
    by blast
  ultimately show ?thesis using mem w ev by simp
qed

text \<open>
  A weight of 1700.6 g is 1700 in the flat report and 1701 in the tabular document, and a
  price of 899.5 is 899.5 in the one and 900 in the other: the rows of the flat report are
  neither the picks' values nor the rows of the tabular document.
\<close>

theorem csv_report_counterexample:
  "csv_report (save_data ''2026-01-01T10:00:00'' ''demo'' demo_picks (summarize demo_picks))
     = [csv_header,
        [TextCell ''Fork'', TextCell ''Fox'', TextCell ''34'', TextCell [], IntCell 1700,
         NumCell (1799 / 2)],
        [TextCell ''Wheelset'', TextCell ''DT'', TextCell ''XM481'', TextCell ''29 inch'',
         IntCell 1850, NumCell 400]]
   \<and> weight_g fox34 = 17006 / 10
   \<and> md_report (save_data ''2026-01-01T10:00:00'' ''demo'' demo_picks (summarize demo_picks)) ! 4
       = ''| Fork | Fox | 34 |  | 1701 | 900 |''
   \<and> csv_report (save_data ''2026-01-01T10:00:00'' ''demo'' demo_picks (summarize demo_picks))
       \<noteq> csv_header # map spec_csv_row [(''Fork'', fox34), (''Wheelset'', xm481)]"
  by code_simp


section \<open>Properties of the search\<close>

lemma starts_with_iff: "starts_with q s \<longleftrightarrow> (\<exists>b. s = q @ b)"
  by (induction q s rule: starts_with.induct) auto

lemma py_in_iff: "py_in q s \<longleftrightarrow> contains q s"
proof (induction s)
  case Nil
  then show ?case by (auto simp: contains_def)
next
  case (Cons c s)
  have "contains q (c # s) \<longleftrightarrow> (\<exists>b. c # s = q @ b) \<or> contains q s"
  proof
    assume "contains q (c # s)"
    then obtain a b where ab: "c # s = a @ q @ b" by (auto simp: contains_def)
    show "(\<exists>b. c # s = q @ b) \<or> contains q s"
    proof (cases a)
      case Nil
      with ab show ?thesis by auto
    next
      case (Cons x a')
      with ab have "s = a' @ q @ b" by simp
      then show ?thesis by (auto simp: contains_def)
    qed
  next
    assume "(\<exists>b. c # s = q @ b) \<or> contains q s"
    then show "contains q (c # s)"
    proof
      assume "\<exists>b. c # s = q @ b"
      then obtain b where "c # s = [] @ q @ b" by auto
      then show ?thesis unfolding contains_def by blast
    next
      assume "contains q s"
      then obtain a b where "s = a @ q @ b" by (auto simp: contains_def)
      then have "c # s = (c # a) @ q @ b" by simp
      then show ?thesis unfolding contains_def by blast
    qed
  qed
  with Cons show ?case by (simp add: starts_with_iff del: starts_with.simps)
qed

lemma lower_space: "lower '' '' = '' ''"
  by code_simp

lemma search_text_joined:
  "search_text p = lower (brand p) @ '' '' @ lower (model p) @ '' '' @ lower (variant_text p)"
  using lower_space by (simp add: search_text_def lower_def)

text \<open>
  C9. A search returns, in the order of the option list, exactly the options whose
  lower-cased brand, model and variant, joined by single spaces, contain the lower-cased
  query; the empty query returns every option. \<^verbatim>\<open>search_and_choose\<close> searches for the
  typed line with the white space at its ends removed.
\<close>

theorem search_filters:
  "search q L =
     filter (\<lambda>p. contains (lower q)
        (lower (brand p) @ '' '' @ lower (model p) @ '' ''
         @ lower (case variant p of None \<Rightarrow> [] | Some v \<Rightarrow> v))) L
   \<and> search [] L = L
   \<and> search_and_choose L (line # inp) =
       (if search (strip line) L = [] then Inr (None, inp)
        else pick_from_results (search (strip line) L) inp)"
proof (intro conjI)
  show "search q L =
     filter (\<lambda>p. contains (lower q)
        (lower (brand p) @ '' '' @ lower (model p) @ '' ''
         @ lower (case variant p of None \<Rightarrow> [] | Some v \<Rightarrow> v))) L"
    by (simp add: search_def py_in_iff search_text_joined variant_text_def)
  have "contains [] s" for s
  proof -
    have "s = [] @ [] @ s" by simp
    then show ?thesis unfolding contains_def by blast
  qed
  then show "search [] L = L"
    by (simp add: search_def py_in_iff lower_def)
  show "search_and_choose L (line # inp) =
       (if search (strip line) L = [] then Inr (None, inp)
        else pick_from_results (search (strip line) L) inp)"
    by (simp add: search_and_choose_def Let_def)
qed

lemma search_example: "search ''29'' [fox34, sid_b, xm481, fox36] = [xm481]
  \<and> search ''FOX'' [fox34, sid_b, xm481, fox36] = [fox34, fox36]"
  by code_simp


section \<open>Properties of loading and of the program\<close>

lemma load_row_error: "load_row to_float row = Inl e \<Longrightarrow> e = ValueError"
  by (auto simp: load_row_def float_or_zero_def split: sum.splits option.splits if_splits)

lemma load_parts_error: "load_parts to_float rows = Inl e \<Longrightarrow> e = ValueError"
proof (induction rows arbitrary: e)
  case Nil
  then show ?case by simp
next
  case (Cons row rows)
  then show ?case
    by (auto split: sum.splits dest: load_row_error)
qed

lemma load_row_malformed:
  assumes "to_float s = None" "s \<noteq> []" "weight_g row = Some s \<or> price_sgd row = Some s"
  shows "load_row to_float row = Inl ValueError"
  using assms
  by (auto simp: load_row_def float_or_zero_def split: sum.splits option.splits if_splits)

lemma load_parts_malformed:
  assumes "load_row to_float row = Inl ValueError"
  shows "load_parts to_float (before @ row # after) = Inl ValueError"
proof (induction before)
  case Nil
  then show ?case using assms by simp
next
  case (Cons r before)
  then show ?case
    by (cases "load_row to_float r") (auto dest: load_row_error)
qed

text \<open>
  C3, as the code has it. A row whose weight or price is a non-empty text that
  \<^verbatim>\<open>float\<close> rejects makes \<^verbatim>\<open>load_parts\<close> raise \<^verbatim>\<open>ValueError\<close>, wherever the row
  stands; the conversion of \<^verbatim>\<open>add_part_interactive\<close> gives 0 for the same text.
\<close>

theorem load_parts_raises_on_malformed:
  assumes "to_float s = None" "s \<noteq> []" "weight_g row = Some s \<or> price_sgd row = Some s"
  shows "load_parts to_float (before @ row # after) = Inl ValueError
       \<and> add_part_number to_float s = 0"
proof -
  have "load_row to_float row = Inl ValueError"
    using assms by (rule load_row_malformed [of to_float s row])
  then have "load_parts to_float (before @ row # after) = Inl ValueError"
    by (rule load_parts_malformed)
  then show ?thesis using assms(1) by (simp add: add_part_number_def)
qed

theorem load_parts_raises_on_malformed_witness:
  "[''900'' \<mapsto> 900 :: rat] ''abc'' = None \<and> ''abc'' \<noteq> []
   \<and> weight_g bad_row = Some ''abc''
   \<and> load_parts [''900'' \<mapsto> 900 :: rat] [blank_row, bad_row] = Inl ValueError
   \<and> add_part_number [''900'' \<mapsto> 900 :: rat] ''abc'' = 0
   \<and> load_parts [''900'' \<mapsto> 900 :: rat] [blank_row]
       = Inr [\<lparr>category = ''Wheelset'', brand = ''DT'', model = ''XM481'',
               variant = None, weight_g = 0, price_sgd = 0, other = []\<rparr>]"
proof -
  let ?f = "[''900'' \<mapsto> 900 :: rat]"
  have h: "?f ''abc'' = None" "''abc'' \<noteq> []"
    "weight_g bad_row = Some ''abc'' \<or> price_sgd bad_row = Some ''abc''"
    by (simp_all add: bad_row_def)
  have ok: "load_parts ?f [blank_row]
       = Inr [\<lparr>category = ''Wheelset'', brand = ''DT'', model = ''XM481'',
               variant = None, weight_g = 0, price_sgd = 0, other = []\<rparr>]"
    by (simp add: load_row_def float_or_zero_def blank_row_def)
  have "load_parts ?f ([blank_row] @ bad_row # []) = Inl ValueError
       \<and> add_part_number ?f ''abc'' = 0"
    using h by (rule load_parts_raises_on_malformed [of ?f "''abc''" bad_row "[blank_row]" "[]"])
  with h ok show ?thesis by (simp add: bad_row_def)
qed

lemma group_by_category_Nil_iff: "group_by_category parts = [] \<longleftrightarrow> parts = []"
proof
  assume "group_by_category parts = []"
  then have "fst ` set (group_by_category parts) = {}" by simp
  then show "parts = []" by (simp add: group_by_category_dom)
qed (simp add: group_by_category_def)

lemma load_parts_Nil_iff: "load_parts to_float rows = Inr [] \<longleftrightarrow> rows = []"
  by (cases rows) (auto split: sum.splits)

text \<open>
  C4, as the code has it. \<^verbatim>\<open>group_by_category\<close> returns the empty catalog for no records,
  and only then. \<^verbatim>\<open>main\<close> tests for the empty list before it builds the catalog: with no
  rows in \<^verbatim>\<open>parts.csv\<close> it ends at the message "No parts found", whatever the options,
  reading no input and writing no file.
\<close>

theorem main_stops_without_parts:
  "(load_parts to_float rows = Inr [] \<longleftrightarrow> rows = [])
   \<and> (\<not> add_part args \<longrightarrow>
        main to_float scen_dir report_dir now args [] last_scen inp files
          = Inr (NoPartsFound, files))
   \<and> (group_by_category parts = [] \<longleftrightarrow> parts = [])"
  by (simp add: load_parts_Nil_iff group_by_category_Nil_iff main_def)

theorem main_stops_without_parts_witness:
  "\<not> add_part replay_args
   \<and> main [''900'' \<mapsto> 900 :: rat] ''/bike/scenarios'' ''/bike/reports'' ''2026-01-01T10:00:00''
        replay_args [] None [''y''] Map.empty
      = Inr (NoPartsFound, Map.empty)"
proof -
  have h: "\<not> add_part replay_args" by (simp add: replay_args_def)
  with main_stops_without_parts [of "[''900'' \<mapsto> 900 :: rat]" "[]" replay_args]
  show ?thesis by blast
qed

text \<open>Building a catalog from no records returns a catalog, the empty one.\<close>

theorem group_by_category_empty_counterexample:
  "group_by_category ([] :: rat part list) = []"
  by (simp add: group_by_category_def)


section \<open>Example runs\<close>

text \<open>
  Scenario A of the specification, and two runs of \<^verbatim>\<open>main\<close>: a replay of a mapping with
  \<^verbatim>\<open>--save\<close>, and an interactive run with \<^verbatim>\<open>--clone-last\<close> in which the name is typed,
  a wrong answer is repeated, the first fork is chosen, the wheelset of the last scenario
  is kept with an empty line, and the scenario is saved.
\<close>

lemma scenario_a_example:
  "apply_scenario_mapping [''Fork'' \<mapsto> ''SID'', ''Wheelset'' \<mapsto> ''xm481'']
       (group_by_category [xm481, sid_a])
     = Inr [(''Fork'', Some sid_a), (''Wheelset'', Some xm481)]
   \<and> summarize [(''Fork'', Some sid_a), (''Wheelset'', Some xm481)] = (3550, 1300)
   \<and> summarize [(''Fork'', None), (''Wheelset'', Some xm481)] = (1850, 400)"
  by code_simp

lemma main_replay_example:
  "(case main demo_float ''/bike/scenarios'' ''/bike/reports'' ''2026-01-01T10:00:00''
          replay_args [xm481_row, sid_row] None [] Map.empty of
      Inr (Replayed picks totals, files) \<Rightarrow>
        picks = [(''Fork'', Some sid_a), (''Wheelset'', Some xm481)]
        \<and> totals = (3550, 1300)
        \<and> load_scenario ''/bike/scenarios/light.json'' files
            = Some \<lparr>scen_name = ''light'', created = ''2026-01-01T10:00:00'',
                scen_picks = [(''Fork'', sid_a), (''Wheelset'', xm481)],
                total_weight_g = 3550, total_price_sgd = 1300\<rparr>
        \<and> files ''/bike/reports/light.csv''
            = Some (Csv [csv_header,
                [TextCell ''Fork'', TextCell ''RockShox'', TextCell ''SID'', TextCell ''100mm'',
                 IntCell 1700, NumCell 900],
                [TextCell ''Wheelset'', TextCell ''DT'', TextCell ''XM481'', TextCell ''29 inch'',
                 IntCell 1850, NumCell 400]])
    | _ \<Rightarrow> False)"
  by code_simp

lemma main_interactive_example:
  "(case main demo_float ''/bike/scenarios'' ''/bike/reports'' ''2026-01-01T10:00:00''
          \<lparr>add_part = False, scenario_arg = None, save_flag = False, clone_last = True,
            name_arg = None, auto_save = False\<rparr>
          [xm481_row, sid_row]
          (Some \<lparr>scen_name = ''old'', created = ''2025-12-01T10:00:00'',
                scen_picks = [(''Wheelset'', xm481)],
                total_weight_g = 1850, total_price_sgd = 400\<rparr>)
          ['' Trail '', ''x'', ''1'', '''', '' Y ''] Map.empty of
      Inr (Completed picks totals, files) \<Rightarrow>
        picks = [(''Fork'', Some sid_a), (''Wheelset'', Some xm481)]
        \<and> totals = (3550, 1300)
        \<and> load_scenario ''/bike/scenarios/Trail.json'' files \<noteq> None
    | _ \<Rightarrow> False)"
  by code_simp

end
